theory Spec2Isabelle
  imports Main "HOL-Library.AList"
begin

section \<open>JavaScript values\<close>

text \<open>
  The program handles values that come from query strings, from the environment and
  from \<open>JSON.parse\<close>. They are modelled by one datatype. A number is represented by its
  canonical rendering (what \<open>String(n)\<close> yields: \<open>''1''\<close>, \<open>''6.28''\<close>, \<open>''NaN''\<close>); the
  program never computes with the numbers it receives, it only tests them for
  truthiness and pastes them into strings. Strings are byte strings.
\<close>

datatype jsval =
    JUndefined
  | JNull
  | JBool bool
  | JNum string
  | JStr string
  | JArr "jsval list"
  | JObj "(string \<times> jsval) list"

datatype js_error =
    Error string
  | TypeError string
  | SyntaxError string

fun message :: "js_error \<Rightarrow> string" where
  "message (Error m) = m"
| "message (TypeError m) = m"
| "message (SyntaxError m) = m"

text \<open>Truthiness, as tested by \<open>if (v)\<close>, \<open>!v\<close>, \<open>v ? a : b\<close> and \<open>v || w\<close>.\<close>

fun truthy :: "jsval \<Rightarrow> bool" where
  "truthy JUndefined = False"
| "truthy JNull = False"
| "truthy (JBool b) = b"
| "truthy (JNum n) = (n \<noteq> ''0'' \<and> n \<noteq> ''NaN'')"
| "truthy (JStr s) = (s \<noteq> [])"
| "truthy (JArr xs) = True"
| "truthy (JObj kvs) = True"

fun nullish :: "jsval \<Rightarrow> bool" where
  "nullish JUndefined = True"
| "nullish JNull = True"
| "nullish v = False"

definition js_or :: "jsval \<Rightarrow> jsval \<Rightarrow> jsval" where
  "js_or a b = (if truthy a then a else b)"

text \<open>A destructuring default \<open>{ x = d }\<close> applies exactly when the property is undefined.\<close>

definition or_default :: "jsval \<Rightarrow> jsval \<Rightarrow> jsval" where
  "or_default v d = (if v = JUndefined then d else v)"

fun join_comma :: "string list \<Rightarrow> string" where
  "join_comma [] = []"
| "join_comma [s] = s"
| "join_comma (s # t # ts) = s @ '','' @ join_comma (t # ts)"

text \<open>
  String conversion as done by a template literal \<open>`${v}`\<close>: an array is joined with
  commas, its null and undefined elements rendered empty; a plain object is
  \<open>[object Object]\<close>.
\<close>

fun to_string :: "jsval \<Rightarrow> string" where
  "to_string JUndefined = ''undefined''"
| "to_string JNull = ''null''"
| "to_string (JBool b) = (if b then ''true'' else ''false'')"
| "to_string (JNum n) = n"
| "to_string (JStr s) = s"
| "to_string (JArr xs) = join_comma (map (\<lambda>x. if nullish x then [] else to_string x) xs)"
| "to_string (JObj kvs) = ''[object Object]''"

text \<open>
  Property reads on a value that is neither null nor undefined. The program reads only
  the names \<open>choices\<close>, \<open>message\<close>, \<open>content\<close>, \<open>error\<close>, \<open>result\<close>, \<open>resultList\<close>, \<open>item\<close>,
  \<open>title\<close>, \<open>sku\<close>, \<open>def\<close>, \<open>promotionPrice\<close>, \<open>image\<close> and \<open>itemUrl\<close>; none of them is a
  built-in property of a string, number, boolean or array, so such a read yields
  undefined on everything but an object.
\<close>

fun get_prop :: "jsval \<Rightarrow> string \<Rightarrow> jsval" where
  "get_prop (JObj kvs) name = (case map_of kvs name of Some v \<Rightarrow> v | None \<Rightarrow> JUndefined)"
| "get_prop v name = JUndefined"

text \<open>Optional chaining \<open>v?.name\<close>.\<close>

definition opt_prop :: "jsval \<Rightarrow> string \<Rightarrow> jsval" where
  "opt_prop v name = (if nullish v then JUndefined else get_prop v name)"

text \<open>\<open>v?.[0]\<close>\<close>

fun opt_index0 :: "jsval \<Rightarrow> jsval" where
  "opt_index0 (JArr []) = JUndefined"
| "opt_index0 (JArr (x # xs)) = x"
| "opt_index0 (JStr []) = JUndefined"
| "opt_index0 (JStr (c # cs)) = JStr [c]"
| "opt_index0 (JObj kvs) = (case map_of kvs ''0'' of Some v \<Rightarrow> v | None \<Rightarrow> JUndefined)"
| "opt_index0 v = JUndefined"

subsection \<open>Strings and numbers\<close>

fun show_nat :: "nat \<Rightarrow> string" where
  "show_nat n =
     (if n < 10 then [''0123456789'' ! n]
      else show_nat (n div 10) @ [''0123456789'' ! (n mod 10)])"

declare show_nat.simps [simp del]

text \<open>White space removed by \<open>String.prototype.trim\<close> (the ASCII part of it).\<close>

definition is_space :: "char \<Rightarrow> bool" where
  "is_space c = (c \<in> set [CHR 0x09, CHR 0x0A, CHR 0x0B, CHR 0x0C, CHR 0x0D, CHR 0x20])"

definition js_trim :: "string \<Rightarrow> string" where
  "js_trim s = rev (dropWhile is_space (rev (dropWhile is_space s)))"

text \<open>\<open>s.split(',')\<close>\<close>

fun split_comma :: "string \<Rightarrow> string list" where
  "split_comma [] = [[]]"
| "split_comma (c # cs) =
     (if c = CHR '','' then [] # split_comma cs
      else (case split_comma cs of
              [] \<Rightarrow> [[c]]
            | p # ps \<Rightarrow> (c # p) # ps))"

text \<open>
  \<open>parseInt(s)\<close> with no radix: leading white space, an optional sign, an optional
  \<open>0x\<close> prefix, then the longest run of digits; \<open>NaN\<close> when there is none. Exact for
  results below \<open>2^53\<close>.
\<close>

definition digit_val :: "char \<Rightarrow> nat option" where
  "digit_val c =
     (let n = (of_char c :: nat) in
      if 48 \<le> n \<and> n \<le> 57 then Some (n - 48)
      else if 97 \<le> n \<and> n \<le> 102 then Some (n - 87)
      else if 65 \<le> n \<and> n \<le> 70 then Some (n - 55)
      else None)"

definition is_digit :: "nat \<Rightarrow> char \<Rightarrow> bool" where
  "is_digit radix c = (case digit_val c of Some d \<Rightarrow> d < radix | None \<Rightarrow> False)"

definition digits_val :: "nat \<Rightarrow> string \<Rightarrow> nat" where
  "digits_val radix ds = foldl (\<lambda>acc c. acc * radix + the (digit_val c)) 0 ds"

definition parse_magnitude :: "string \<Rightarrow> nat option" where
  "parse_magnitude s =
     (let (radix, rest) =
            (if take 2 s = ''0x'' \<or> take 2 s = ''0X'' then (16, drop 2 s) else (10, s));
          ds = takeWhile (is_digit radix) rest
      in if ds = [] then None else Some (digits_val radix ds))"

definition parseInt :: "jsval \<Rightarrow> jsval" where
  "parseInt v =
     (let s = dropWhile is_space (to_string v);
          (neg, rest) =
            (case s of
               c # cs \<Rightarrow> if c = CHR ''-'' then (True, cs)
                         else if c = CHR ''+'' then (False, cs) else (False, s)
             | [] \<Rightarrow> (False, s))
      in case parse_magnitude rest of
           None \<Rightarrow> JNum ''NaN''
         | Some n \<Rightarrow> JNum (if neg \<and> n \<noteq> 0 then ''-'' @ show_nat n else show_nat n))"

section \<open>The environment\<close>

text \<open>
  A \<open>fetch\<close> either rejects (a transport error) or yields a response. A response has a
  status and a body that can be read as text or parsed as JSON; either read can fail.
\<close>

record response =
  resp_status :: nat
  resp_text :: "js_error + string"
  resp_json :: "js_error + jsval"

definition resp_ok :: "response \<Rightarrow> bool" where
  "resp_ok r = (200 \<le> resp_status r \<and> resp_status r \<le> 299)"

text \<open>
  The projected result, \<open>{title, price, image, url}\<close>. A field that is undefined is
  the same as a field that is absent: reading it yields undefined and
  \<open>JSON.stringify\<close> leaves it out.
\<close>

record result_item =
  item_title :: jsval
  item_price :: jsval
  item_image :: jsval
  item_url :: jsval

type_synonym result_list = "result_item list"

text \<open>
  The cache is a JavaScript object used as a dictionary from key strings to result
  lists, kept in insertion order. A key always contains the character \<open>|\<close>, so it
  never names a property inherited from \<open>Object.prototype\<close>. An array is truthy even
  when empty, so the test \<open>if (cache[cacheKey])\<close> succeeds exactly when the key is there.

  The cache file is missing, or cannot be read or parsed, or holds such an object: what
  the program itself wrote there.
\<close>

type_synonym cache = "(string \<times> result_list) list"

datatype cache_file =
    Missing
  | Unreadable
  | Holding cache

text \<open>The query parameters appended to the search URL, in order.\<close>

type_synonym search_url = "(string \<times> string) list"

text \<open>
  What one run can observe of the world: the two environment variables, the cache file
  and whether it can be written, and the two remote endpoints as functions from the
  request to the outcome of \<open>fetch\<close>. The AI endpoint receives the bearer key and the
  content of the user message; the search endpoint receives the URL parameters and the
  value of the \<open>x-rapidapi-key\<close> header.
\<close>

record world =
  HACKCLUB_API_KEY :: "string option"
  RAPIDAPI_KEY :: "string option"
  cache_file :: cache_file
  cache_writable :: bool
  ai_endpoint :: "string \<Rightarrow> string \<Rightarrow> js_error + response"
  search_endpoint :: "search_url \<Rightarrow> jsval \<Rightarrow> js_error + response"

text \<open>
  The effects of a run, in the order they happen: the lookup \<open>cache[cacheKey]\<close>, a
  request to the AI endpoint (bearer key, content of the message), a request to the search
  endpoint (URL parameters, key), and the assignment \<open>cache[cacheKey] = results\<close> with the
  call of \<open>saveCache\<close> that follows it.
\<close>

datatype event =
    CacheLookup string
  | AiCall string string
  | SearchCall search_url jsval
  | CacheStore string result_list

record outcome =
  out_result :: "js_error + result_list"
  out_file :: cache_file
  out_events :: "event list"

definition env_val :: "string option \<Rightarrow> jsval" where
  "env_val e = (case e of None \<Rightarrow> JUndefined | Some s \<Rightarrow> JStr s)"

section \<open>The cache store\<close>

text \<open>The functions \<open>loadCache\<close>, \<open>saveCache\<close> and \<open>getCacheKey\<close> of the search module.\<close>

text \<open>\<open>loadCache\<close>: the parsed file, or \<open>{}\<close> when it is missing or cannot be read.\<close>

definition loadCache :: "cache_file \<Rightarrow> cache" where
  "loadCache f = (case f of Holding c \<Rightarrow> c | Missing \<Rightarrow> [] | Unreadable \<Rightarrow> [])"

text \<open>\<open>saveCache\<close>: overwrites the file; a failed write is logged and swallowed.\<close>

definition saveCache :: "world \<Rightarrow> cache \<Rightarrow> cache_file" where
  "saveCache w c = (if cache_writable w then Holding c else cache_file w)"

definition getCacheKey :: "jsval \<Rightarrow> jsval \<Rightarrow> jsval \<Rightarrow> string" where
  "getCacheKey q page sort_by =
     to_string q @ ''|'' @ to_string page @ ''|'' @ to_string sort_by"

section \<open>The query optimizer\<close>

text \<open>
  The function \<open>optimizeSearchQuery\<close>. Whatever is thrown inside its \<open>try\<close> block is caught
  and the original query returned.
\<close>

definition prompt :: "jsval \<Rightarrow> string" where
  "prompt query =
     ''You are a search query optimizer for AliExpress. Given a user'' @ [CHR 0x27] @
     ''s search query, generate a better, more concise search term that would yield '' @
     ''better results on AliExpress. Make sure the search is short/general enough to '' @
     ''actually yield responses. Return ONLY the optimized search query, nothing else. '' @
     ''No explanations, no quotes, just the search term.'' @ [CHR 0x0A, CHR 0x0A] @
     ''User'' @ [CHR 0x27] @ ''s search query: '' @ to_string query"

text \<open>\<open>data.choices?.[0]?.message?.content?.trim()\<close>\<close>

definition choice_content :: "jsval \<Rightarrow> js_error + jsval" where
  "choice_content data =
     (if nullish data
      then Inl (TypeError (''Cannot read properties of null (reading '' @ [CHR 0x27] @
                           ''choices'' @ [CHR 0x27] @ '')''))
      else
        (let choices = get_prop data ''choices'';
             first = (if nullish choices then JUndefined else opt_index0 choices);
             content = opt_prop (opt_prop first ''message'') ''content''
         in if nullish content then Inr JUndefined
            else (case content of
                    JStr s \<Rightarrow> Inr (JStr (js_trim s))
                  | _ \<Rightarrow> Inl (TypeError
                      ''data.choices?.[0]?.message?.content?.trim is not a function''))))"

text \<open>The body of the \<open>try\<close> block, after the request has been sent.\<close>

definition optimize_try :: "jsval \<Rightarrow> js_error + response \<Rightarrow> js_error + jsval" where
  "optimize_try query fetched =
     (case fetched of
        Inl err \<Rightarrow> Inl err
      | Inr response \<Rightarrow>
          if \<not> resp_ok response
          then Inl (Error (''HackClub AI request failed: '' @ show_nat (resp_status response)))
          else
            (case resp_json response of
               Inl err \<Rightarrow> Inl err
             | Inr data \<Rightarrow>
                 (case choice_content data of
                    Inl err \<Rightarrow> Inl err
                  | Inr optimizedQuery \<Rightarrow>
                      if truthy optimizedQuery then Inr optimizedQuery else Inr query)))"

definition optimizeSearchQuery :: "world \<Rightarrow> jsval \<Rightarrow> jsval \<times> event list" where
  "optimizeSearchQuery w query =
     (let hackclubApiKey = env_val (HACKCLUB_API_KEY w)
      in if \<not> truthy hackclubApiKey then (query, [])
         else
           (let content = prompt query;
                key = to_string hackclubApiKey
            in (case optimize_try query (ai_endpoint w key content) of
                  Inl err \<Rightarrow> query
                | Inr r \<Rightarrow> r,
                [AiCall key content])))"

section \<open>The search executor\<close>

text \<open>
  The function \<open>searchAliExpress\<close>, inside out: the projection of one entry, the
  projection of the response, one pass through the \<open>try\<close> block of the loop, the loop, and
  the function itself.
\<close>

text \<open>The object built for one upstream entry by the \<open>map\<close> callback.\<close>

definition project_item :: "jsval \<Rightarrow> js_error + result_item" where
  "project_item item =
     (if nullish item
      then Inl (TypeError (''Cannot read properties of null (reading '' @ [CHR 0x27] @
                           ''item'' @ [CHR 0x27] @ '')''))
      else
        (let it = get_prop item ''item''
         in Inr \<lparr> item_title = opt_prop it ''title'',
                  item_price = opt_prop (opt_prop (opt_prop it ''sku'') ''def'') ''promotionPrice'',
                  item_image =
                    (if truthy (opt_prop it ''image'')
                     then JStr (''https:'' @ to_string (get_prop it ''image''))
                     else opt_prop it ''image''),
                  item_url =
                    (if truthy (opt_prop it ''itemUrl'')
                     then JStr (''https:'' @ to_string (get_prop it ''itemUrl''))
                     else opt_prop it ''itemUrl'') \<rparr>))"

text \<open>\<open>Array.prototype.map\<close> with a callback that can throw: the first throw ends it.\<close>

fun map_items :: "jsval list \<Rightarrow> js_error + result_list" where
  "map_items [] = Inr []"
| "map_items (x # xs) =
     (case project_item x of
        Inl err \<Rightarrow> Inl err
      | Inr r \<Rightarrow> (case map_items xs of Inl err \<Rightarrow> Inl err | Inr rs \<Rightarrow> Inr (r # rs)))"

text \<open>\<open>data.result?.resultList?.slice(0, 3).map(...) || []\<close>, for \<open>data\<close> not null.\<close>

definition project_results :: "jsval \<Rightarrow> js_error + result_list" where
  "project_results data =
     (let resultList = opt_prop (get_prop data ''result'') ''resultList''
      in if nullish resultList then Inr []
         else (case resultList of
                 JArr xs \<Rightarrow> map_items (take 3 xs)
               | JStr s \<Rightarrow> Inl (TypeError
                   ''data.result?.resultList?.slice(...).map is not a function'')
               | _ \<Rightarrow> Inl (TypeError
                   ''data.result?.resultList?.slice is not a function'')))"

text \<open>
  One pass through the body of the \<open>try\<close> block for the key at index \<open>i\<close>: the key
  was refused with status 403, or something was thrown, or results were found.
\<close>

datatype attempt =
    Forbidden js_error
  | Thrown js_error
  | Found result_list

definition try_key :: "world \<Rightarrow> search_url \<Rightarrow> nat \<Rightarrow> jsval \<Rightarrow> attempt" where
  "try_key w url i currentKey =
     (case search_endpoint w url currentKey of
        Inl err \<Rightarrow> Thrown err
      | Inr response \<Rightarrow>
          if resp_status response = 403
          then Forbidden (Error (''API key '' @ show_nat (i + 1) @ '' returned 403 Forbidden''))
          else if \<not> resp_ok response
          then (case resp_text response of
                  Inl err \<Rightarrow> Thrown err
                | Inr errorText \<Rightarrow>
                    Thrown (Error (''HTTP error! status: '' @ show_nat (resp_status response) @
                                   '', body: '' @ errorText)))
          else
            (case resp_json response of
               Inl err \<Rightarrow> Thrown err
             | Inr data \<Rightarrow>
                 if nullish data
                 then Thrown (TypeError (''Cannot read properties of null (reading '' @
                                         [CHR 0x27] @ ''error'' @ [CHR 0x27] @ '')''))
                 else if truthy (get_prop data ''error'')
                 then Thrown (Error (''API Error: '' @ to_string (get_prop data ''error'')))
                 else (case project_results data of
                         Inl err \<Rightarrow> Thrown err
                       | Inr results \<Rightarrow> Found results)))"

definition add_events :: "event list \<Rightarrow> outcome \<Rightarrow> outcome" where
  "add_events evs out = out \<lparr> out_events := evs @ out_events out \<rparr>"

text \<open>The statement after the loop.\<close>

definition exhausted :: "world \<Rightarrow> jsval list \<Rightarrow> js_error option \<Rightarrow> outcome" where
  "exhausted w apiKeys lastError =
     \<lparr> out_result =
         (case lastError of
            None \<Rightarrow> Inl (TypeError (''Cannot read properties of null (reading '' @
                                    [CHR 0x27] @ ''message'' @ [CHR 0x27] @ '')''))
          | Some err \<Rightarrow>
              Inl (Error (''Failed to search AliExpress with all '' @
                          show_nat (length apiKeys) @ '' API key(s). Last error: '' @
                          message err))),
       out_file = cache_file w,
       out_events = [] \<rparr>"

text \<open>
  The \<open>for\<close> loop over the keys, from index \<open>i\<close> on. A refusal with status 403 and a thrown
  error both set \<open>lastError\<close> and lead to the next index; after a thrown error the source
  continues explicitly when this was not the last key and falls out of the \<open>catch\<close> block
  otherwise.
\<close>

function key_loop ::
  "world \<Rightarrow> search_url \<Rightarrow> cache \<Rightarrow> string \<Rightarrow> jsval list \<Rightarrow> nat \<Rightarrow> js_error option \<Rightarrow> outcome"
where
  "key_loop w url cache cacheKey apiKeys i lastError =
     (if i < length apiKeys then
        (let currentKey = apiKeys ! i
         in case try_key w url i currentKey of
              Forbidden err \<Rightarrow>
                add_events [SearchCall url currentKey]
                  (key_loop w url cache cacheKey apiKeys (i + 1) (Some err))
            | Thrown err \<Rightarrow>
                if i < length apiKeys - 1
                then add_events [SearchCall url currentKey]
                       (key_loop w url cache cacheKey apiKeys (i + 1) (Some err))
                else add_events [SearchCall url currentKey]
                       (key_loop w url cache cacheKey apiKeys (i + 1) (Some err))
            | Found results \<Rightarrow>
                \<lparr> out_result = Inr results,
                  out_file = saveCache w (AList.update cacheKey results cache),
                  out_events = [SearchCall url currentKey, CacheStore cacheKey results] \<rparr>)
      else exhausted w apiKeys lastError)"
  by pat_completeness auto
termination
  by (relation "measure (\<lambda>(w, url, cache, cacheKey, apiKeys, i, lastError). length apiKeys - i)")
     auto

declare key_loop.simps [simp del]

text \<open>The key list made of the configured value.\<close>

definition api_keys :: "jsval \<Rightarrow> jsval list" where
  "api_keys rapidApiKey =
     (case rapidApiKey of
        JArr ks \<Rightarrow> ks
      | JStr s \<Rightarrow> map (\<lambda>key. JStr (js_trim key)) (split_comma s)
      | _ \<Rightarrow> [rapidApiKey])"

text \<open>\<open>page.toString()\<close>\<close>

definition page_toString :: "jsval \<Rightarrow> js_error + string" where
  "page_toString page =
     (if nullish page
      then Inl (TypeError (''Cannot read properties of null (reading '' @ [CHR 0x27] @
                           ''toString'' @ [CHR 0x27] @ '')''))
      else Inr (to_string page))"

text \<open>The argument of \<open>searchAliExpress\<close>; a property that is not given is undefined.\<close>

record options =
  opt_q :: jsval
  opt_page :: jsval
  opt_sort :: jsval
  opt_rapidApiKey :: jsval

definition failed :: "world \<Rightarrow> js_error \<Rightarrow> event list \<Rightarrow> outcome" where
  "failed w err evs = \<lparr> out_result = Inl err, out_file = cache_file w, out_events = evs \<rparr>"

definition searchAliExpress :: "world \<Rightarrow> options \<Rightarrow> outcome" where
  "searchAliExpress w opts =
     (let q = opt_q opts;
          page = or_default (opt_page opts) (JNum ''1'');
          sort_by = or_default (opt_sort opts) (JStr ''default'');
          rapidApiKey = or_default (opt_rapidApiKey opts) (env_val (RAPIDAPI_KEY w))
      in if \<not> truthy q then failed w (Error ''Search query (q) is required'') []
         else
           (let cacheKey = getCacheKey q page sort_by;
                cache = loadCache (cache_file w)
            in case map_of cache cacheKey of
                 Some cached \<Rightarrow>
                   \<lparr> out_result = Inr cached, out_file = cache_file w,
                     out_events = [CacheLookup cacheKey] \<rparr>
               | None \<Rightarrow>
                   (let (optimizedQuery, ai) = optimizeSearchQuery w q
                    in if \<not> truthy rapidApiKey
                       then failed w
                              (Error ''RapidAPI key is required. Set RAPIDAPI_KEY in .env file'')
                              (CacheLookup cacheKey # ai)
                       else
                         (let apiKeys = api_keys rapidApiKey
                          in case page_toString page of
                               Inl err \<Rightarrow> failed w err (CacheLookup cacheKey # ai)
                             | Inr pageText \<Rightarrow>
                                 (let url = [(''q'', to_string optimizedQuery),
                                             (''page'', pageText),
                                             (''sort'', to_string sort_by)]
                                  in add_events (CacheLookup cacheKey # ai)
                                       (key_loop w url cache cacheKey apiKeys 0 None))))))"

section \<open>The request handler\<close>

text \<open>The handler of \<open>GET /search\<close> of the server module.\<close>

text \<open>The parameters of the query string of a request; an absent one is undefined.\<close>

record request_query =
  req_q :: jsval
  req_page :: jsval
  req_sort :: jsval

text \<open>
  The options object of the handler. In \<open>page ? parseInt(page) : 1 || 'default'\<close> the
  operator \<open>||\<close> binds tighter than the conditional.
\<close>

definition handler_options :: "request_query \<Rightarrow> options" where
  "handler_options query =
     \<lparr> opt_q = req_q query,
       opt_page =
         (if truthy (req_page query) then parseInt (req_page query)
          else js_or (JNum ''1'') (JStr ''default'')),
       opt_sort = js_or (req_sort query) (JStr ''default''),
       opt_rapidApiKey = JUndefined \<rparr>"

datatype http_reply =
    Reply nat "js_error + result_list"

text \<open>The reply, with the cache file and the effects of the request.\<close>

definition search_handler ::
  "world \<Rightarrow> request_query \<Rightarrow> http_reply \<times> cache_file \<times> event list"
where
  "search_handler w query =
     (if \<not> truthy (req_q query)
      then (Reply 400 (Inl (Error ''Search query parameter \"q\" is required'')),
            cache_file w, [])
      else
        (let out = searchAliExpress w (handler_options query)
         in case out_result out of
              Inr results \<Rightarrow> (Reply 200 (Inr results), out_file out, out_events out)
            | Inl err \<Rightarrow> (Reply 500 (Inl (Error (message err))), out_file out, out_events out)))"

section \<open>Vocabulary of the properties\<close>

text \<open>The values \<open>searchAliExpress\<close> works with once the defaults have been applied.\<close>

definition eff_page :: "options \<Rightarrow> jsval" where
  "eff_page opts = or_default (opt_page opts) (JNum ''1'')"

definition eff_sort :: "options \<Rightarrow> jsval" where
  "eff_sort opts = or_default (opt_sort opts) (JStr ''default'')"

definition eff_key :: "world \<Rightarrow> options \<Rightarrow> jsval" where
  "eff_key w opts = or_default (opt_rapidApiKey opts) (env_val (RAPIDAPI_KEY w))"

definition cache_key :: "options \<Rightarrow> string" where
  "cache_key opts = getCacheKey (opt_q opts) (eff_page opts) (eff_sort opts)"

definition cached :: "world \<Rightarrow> options \<Rightarrow> result_list option" where
  "cached w opts = map_of (loadCache (cache_file w)) (cache_key opts)"

text \<open>The parameters of the search request a run sends.\<close>

definition request_url :: "world \<Rightarrow> options \<Rightarrow> search_url" where
  "request_url w opts =
     [(''q'', to_string (fst (optimizeSearchQuery w (opt_q opts)))),
      (''page'', to_string (eff_page opts)),
      (''sort'', to_string (eff_sort opts))]"

text \<open>A request that passes validation, is not in the cache and has a page to print.\<close>

definition reaches_upstream :: "world \<Rightarrow> options \<Rightarrow> bool" where
  "reaches_upstream w opts =
     (truthy (opt_q opts) \<and> cached w opts = None \<and> \<not> nullish (eff_page opts))"

text \<open>
  Readings of a trace: the keys and the URL parameters of the requests to the search
  endpoint, the requests to the AI endpoint, and the keys of the cache entries addressed.
\<close>

fun search_keys :: "event list \<Rightarrow> jsval list" where
  "search_keys [] = []"
| "search_keys (SearchCall url key # evs) = key # search_keys evs"
| "search_keys (e # evs) = search_keys evs"

fun search_urls :: "event list \<Rightarrow> search_url list" where
  "search_urls [] = []"
| "search_urls (SearchCall url key # evs) = url # search_urls evs"
| "search_urls (e # evs) = search_urls evs"

fun ai_calls :: "event list \<Rightarrow> event list" where
  "ai_calls [] = []"
| "ai_calls (AiCall key content # evs) = AiCall key content # ai_calls evs"
| "ai_calls (e # evs) = ai_calls evs"

fun cache_keys :: "event list \<Rightarrow> string list" where
  "cache_keys [] = []"
| "cache_keys (CacheLookup key # evs) = key # cache_keys evs"
| "cache_keys (CacheStore key results # evs) = key # cache_keys evs"
| "cache_keys (e # evs) = cache_keys evs"

text \<open>The error an attempt leaves in \<open>lastError\<close>, if it fails.\<close>

definition attempt_error :: "attempt \<Rightarrow> js_error option" where
  "attempt_error a =
     (case a of
        Forbidden err \<Rightarrow> Some err
      | Thrown err \<Rightarrow> Some err
      | Found results \<Rightarrow> None)"

text \<open>The upstream answers a request made with this key with status 403.\<close>

definition refused :: "world \<Rightarrow> search_url \<Rightarrow> jsval \<Rightarrow> bool" where
  "refused w url key =
     (case search_endpoint w url key of
        Inl err \<Rightarrow> False
      | Inr response \<Rightarrow> resp_status response = 403)"

text \<open>\<open>item.item?.image\<close> and \<open>item.item?.itemUrl\<close> of an upstream entry.\<close>

definition upstream_image :: "jsval \<Rightarrow> jsval" where
  "upstream_image item = opt_prop (get_prop item ''item'') ''image''"

definition upstream_url :: "jsval \<Rightarrow> jsval" where
  "upstream_url item = opt_prop (get_prop item ''item'') ''itemUrl''"

text \<open>The attempt with this key does not find results (whatever its position in the list).\<close>

definition key_fails :: "world \<Rightarrow> search_url \<Rightarrow> jsval \<Rightarrow> bool" where
  "key_fails w url key = (attempt_error (try_key w url 0 key) \<noteq> None)"

text \<open>
  The upstream answers a request made with this key with a success status and a JSON
  value, not null, that has no truthy \<open>error\<close> and no \<open>result.resultList\<close> (it is absent
  or null).
\<close>

definition empty_answer :: "world \<Rightarrow> search_url \<Rightarrow> jsval \<Rightarrow> bool" where
  "empty_answer w url key =
     (case search_endpoint w url key of
        Inl err \<Rightarrow> False
      | Inr response \<Rightarrow>
          resp_ok response \<and>
          (case resp_json response of
             Inl err \<Rightarrow> False
           | Inr data \<Rightarrow>
               \<not> nullish data \<and> \<not> truthy (get_prop data ''error'') \<and>
               nullish (opt_prop (get_prop data ''result'') ''resultList'')))"

section \<open>A sample deployment\<close>

text \<open>
  Concrete responses and a concrete world, on which the theorems below are exercised.
  The upstream answers by key: \<open>good\<close> finds one product, \<open>empty\<close> answers with an
  object without a result, \<open>odd\<close> with a result list that is a string, \<open>err\<close> with an
  error field, \<open>limit\<close> with status 429, \<open>down\<close> cannot be reached, and any other key
  is refused with status 403.
\<close>

definition json_reply :: "string \<Rightarrow> jsval \<Rightarrow> response" where
  "json_reply text data = \<lparr> resp_status = 200, resp_text = Inr text, resp_json = Inr data \<rparr>"

definition text_reply :: "nat \<Rightarrow> string \<Rightarrow> response" where
  "text_reply status text =
     \<lparr> resp_status = status, resp_text = Inr text,
       resp_json = Inl (SyntaxError ''Unexpected token in JSON at position 0'') \<rparr>"

definition product :: jsval where
  "product =
     JObj [(''item'',
       JObj [(''title'', JStr ''Red shoes''),
             (''sku'', JObj [(''def'', JObj [(''promotionPrice'', JNum ''6.28'')])]),
             (''image'', JStr ''//ae01.alicdn.com/kf/a.jpg''),
             (''itemUrl'', JStr ''//www.aliexpress.com/item/1.html'')])]"

definition product_found :: result_list where
  "product_found =
     [\<lparr> item_title = JStr ''Red shoes'', item_price = JNum ''6.28'',
        item_image = JStr ''https://ae01.alicdn.com/kf/a.jpg'',
        item_url = JStr ''https://www.aliexpress.com/item/1.html'' \<rparr>]"

definition upstream :: "search_url \<Rightarrow> jsval \<Rightarrow> js_error + response" where
  "upstream url key =
     (if key = JStr ''good''
      then Inr (json_reply ''(one product)''
                  (JObj [(''result'', JObj [(''resultList'', JArr [product])])]))
      else if key = JStr ''empty'' then Inr (json_reply ''{}'' (JObj []))
      else if key = JStr ''odd''
      then Inr (json_reply ''(a string for a list)''
                  (JObj [(''result'', JObj [(''resultList'', JStr ''none'')])]))
      else if key = JStr ''err''
      then Inr (json_reply ''(an error)'' (JObj [(''error'', JStr ''quota'')]))
      else if key = JStr ''limit'' then Inr (text_reply 429 ''Too many requests'')
      else if key = JStr ''down'' then Inl (TypeError ''fetch failed'')
      else Inr (text_reply 403 ''Forbidden''))"

definition rewriter :: "string \<Rightarrow> string \<Rightarrow> string \<Rightarrow> js_error + response" where
  "rewriter answer key content =
     Inr (json_reply ''(a completion)''
            (JObj [(''choices'',
               JArr [JObj [(''message'', JObj [(''content'', JStr answer)])]])]))"

definition shop :: world where
  "shop =
     \<lparr> HACKCLUB_API_KEY = Some ''hc'',
       RAPIDAPI_KEY = Some ''bad1, bad2, good, spare'',
       cache_file = Missing,
       cache_writable = True,
       ai_endpoint = rewriter '' red shoes '',
       search_endpoint = upstream \<rparr>"

definition request :: options where
  "request =
     \<lparr> opt_q = JStr ''nice red shoes for running'', opt_page = JNum ''1'',
       opt_sort = JStr ''default'', opt_rapidApiKey = JUndefined \<rparr>"

section \<open>Lemmas\<close>

lemma search_keys_append: "search_keys (xs @ ys) = search_keys xs @ search_keys ys"
  by (induction xs rule: search_keys.induct) simp_all

lemma search_urls_append: "search_urls (xs @ ys) = search_urls xs @ search_urls ys"
  by (induction xs rule: search_urls.induct) simp_all

lemma ai_calls_append: "ai_calls (xs @ ys) = ai_calls xs @ ai_calls ys"
  by (induction xs rule: ai_calls.induct) simp_all


lemma search_keys_calls: "search_keys (map (SearchCall url) ks) = ks"
  by (induction ks) simp_all

lemma add_events_simps:
  "out_result (add_events evs out) = out_result out"
  "out_file (add_events evs out) = out_file out"
  "out_events (add_events evs out) = evs @ out_events out"
  by (simp_all add: add_events_def)

lemma add_events_add_events: "add_events xs (add_events ys out) = add_events (xs @ ys) out"
  by (simp add: add_events_def)

lemma add_events_Nil: "add_events [] out = out"
  by (simp add: add_events_def)

lemma key_loop_failure:
  assumes "i < length ks" and "attempt_error (try_key w url i (ks ! i)) = Some err"
  shows "key_loop w url c key ks i le =
         add_events [SearchCall url (ks ! i)] (key_loop w url c key ks (Suc i) (Some err))"
  using assms by (subst key_loop.simps) (simp add: attempt_error_def split: attempt.splits)

lemma key_loop_found:
  assumes "i < length ks" and "try_key w url i (ks ! i) = Found results"
  shows "key_loop w url c key ks i le =
         \<lparr> out_result = Inr results,
           out_file = saveCache w (AList.update key results c),
           out_events = [SearchCall url (ks ! i), CacheStore key results] \<rparr>"
  using assms by (subst key_loop.simps) simp

lemma key_loop_end:
  assumes "length ks \<le> i"
  shows "key_loop w url c key ks i le = exhausted w ks le"
  using assms by (subst key_loop.simps) simp

text \<open>A run of failing keys is skipped, each leaving one request and its error behind.\<close>

lemma key_loop_skip:
  assumes "j \<le> length ks" and "i \<le> j"
    and "\<forall>n. i \<le> n \<and> n < j \<longrightarrow> attempt_error (try_key w url n (ks ! n)) \<noteq> None"
  shows "key_loop w url c key ks i le =
         add_events (map (SearchCall url) (take (j - i) (drop i ks)))
           (key_loop w url c key ks j
              (if i = j then le else attempt_error (try_key w url (j - 1) (ks ! (j - 1)))))"
  using assms
proof (induction "j - i" arbitrary: i le)
  case 0
  then show ?case by (simp add: add_events_Nil)
next
  case (Suc d)
  then have lt: "i < j" and il: "i < length ks" by auto
  from Suc.prems lt obtain err where err: "attempt_error (try_key w url i (ks ! i)) = Some err"
    by auto
  have step: "key_loop w url c key ks i le =
      add_events [SearchCall url (ks ! i)] (key_loop w url c key ks (Suc i) (Some err))"
    by (rule key_loop_failure [OF il err])
  have d: "d = j - Suc i" using Suc.hyps by simp
  have rest: "key_loop w url c key ks (Suc i) (Some err) =
      add_events (map (SearchCall url) (take (j - Suc i) (drop (Suc i) ks)))
        (key_loop w url c key ks j
          (if Suc i = j then Some err
           else attempt_error (try_key w url (j - 1) (ks ! (j - 1)))))"
    using Suc.prems lt by (intro Suc.hyps(1) [OF d]) auto
  have last: "(if Suc i = j then Some err
           else attempt_error (try_key w url (j - 1) (ks ! (j - 1))))
        = attempt_error (try_key w url (j - 1) (ks ! (j - 1)))"
    using err by auto
  have evs: "[SearchCall url (ks ! i)] @ map (SearchCall url) (take (j - Suc i) (drop (Suc i) ks))
        = map (SearchCall url) (take (j - i) (drop i ks))"
  proof -
    have "drop i ks = ks ! i # drop (Suc i) ks" using il by (simp add: Cons_nth_drop_Suc)
    moreover have "j - i = Suc (j - Suc i)" using lt by simp
    ultimately show ?thesis by simp
  qed
  show ?case using lt by (simp add: step rest last add_events_add_events evs del: append.simps)
qed

lemma searchAliExpress_invalid:
  assumes "\<not> truthy (opt_q opts)"
  shows "searchAliExpress w opts = failed w (Error ''Search query (q) is required'') []"
  using assms by (simp add: searchAliExpress_def)

lemma searchAliExpress_hit:
  assumes "truthy (opt_q opts)" and "cached w opts = Some r"
  shows "searchAliExpress w opts =
         \<lparr> out_result = Inr r, out_file = cache_file w,
           out_events = [CacheLookup (cache_key opts)] \<rparr>"
  using assms
  by (simp add: searchAliExpress_def cached_def cache_key_def eff_page_def eff_sort_def Let_def)

lemma searchAliExpress_no_key:
  assumes "truthy (opt_q opts)" and "cached w opts = None" and "\<not> truthy (eff_key w opts)"
  shows "searchAliExpress w opts =
         failed w (Error ''RapidAPI key is required. Set RAPIDAPI_KEY in .env file'')
           (CacheLookup (cache_key opts) # snd (optimizeSearchQuery w (opt_q opts)))"
  using assms
  by (simp add: searchAliExpress_def cached_def cache_key_def eff_page_def eff_sort_def
      eff_key_def Let_def case_prod_beta)

lemma searchAliExpress_null_page:
  assumes "truthy (opt_q opts)" and "cached w opts = None" and "truthy (eff_key w opts)"
    and "nullish (eff_page opts)"
  shows "\<exists>err. searchAliExpress w opts =
         failed w err (CacheLookup (cache_key opts) # snd (optimizeSearchQuery w (opt_q opts)))"
  using assms
  by (auto simp add: searchAliExpress_def cached_def cache_key_def eff_page_def eff_sort_def
      eff_key_def page_toString_def Let_def case_prod_beta)

lemma searchAliExpress_miss:
  assumes "reaches_upstream w opts" and "truthy (eff_key w opts)"
  shows "searchAliExpress w opts =
         add_events (CacheLookup (cache_key opts) # snd (optimizeSearchQuery w (opt_q opts)))
           (key_loop w (request_url w opts) (loadCache (cache_file w)) (cache_key opts)
              (api_keys (eff_key w opts)) 0 None)"
  using assms
  by (simp add: searchAliExpress_def reaches_upstream_def cached_def cache_key_def
      eff_page_def eff_sort_def eff_key_def page_toString_def request_url_def Let_def case_prod_beta)

lemma key_loop_success:
  assumes "out_result (key_loop w url c key ks i le) = Inr r"
  shows "out_file (key_loop w url c key ks i le) = saveCache w (AList.update key r c)"
  using assms
proof (induction w url c key ks i le rule: key_loop.induct)
  case (1 w url c key ks i le)
  show ?case
  proof (cases "i < length ks")
    case False
    with "1.prems" show ?thesis
      by (simp add: key_loop_end exhausted_def split: option.splits)
  next
    case True
    show ?thesis
    proof (cases "try_key w url i (ks ! i)")
      case (Found results)
      with True "1.prems" show ?thesis by (simp add: key_loop_found)
    next
      case (Forbidden err)
      then have e: "attempt_error (try_key w url i (ks ! i)) = Some err"
        by (simp add: attempt_error_def)
      from "1.prems" have "out_result (key_loop w url c key ks (i + 1) (Some err)) = Inr r"
        by (simp add: key_loop_failure [OF True e] add_events_simps)
      with "1.IH"(1) [OF True refl Forbidden] show ?thesis
        by (simp add: key_loop_failure [OF True e] add_events_simps)
    next
      case (Thrown err)
      then have e: "attempt_error (try_key w url i (ks ! i)) = Some err"
        by (simp add: attempt_error_def)
      from "1.prems" have r: "out_result (key_loop w url c key ks (i + 1) (Some err)) = Inr r"
        by (simp add: key_loop_failure [OF True e] add_events_simps)
      show ?thesis
      proof (cases "i < length ks - 1")
        case True2: True
        from "1.IH"(2) [OF True refl Thrown True2] r show ?thesis
          by (simp add: key_loop_failure [OF True e] add_events_simps)
      next
        case False2: False
        from "1.IH"(3) [OF True refl Thrown False2] r show ?thesis
          by (simp add: key_loop_failure [OF True e] add_events_simps)
      qed
    qed
  qed
qed

lemma attempt_cases:
  obtains (failure) err where "attempt_error a = Some err"
        | (found) results where "a = Found results"
  by (cases a) (simp_all add: attempt_error_def)

text \<open>What the loop leaves in the trace: requests for the one URL, stores under the one key.\<close>

lemma key_loop_events:
  "set (search_urls (out_events (key_loop w url c key ks i le))) \<subseteq> {url} \<and>
   set (cache_keys (out_events (key_loop w url c key ks i le))) \<subseteq> {key} \<and>
   ai_calls (out_events (key_loop w url c key ks i le)) = []"
proof (induction "length ks - i" arbitrary: i le)
  case 0
  then show ?case by (simp add: key_loop_end exhausted_def)
next
  case (Suc d)
  then have il: "i < length ks" by simp
  show ?case
  proof (cases "try_key w url i (ks ! i)" rule: attempt_cases)
    case (found results)
    then show ?thesis by (simp add: key_loop_found [OF il])
  next
    case (failure err)
    have "d = length ks - Suc i" using Suc.hyps by simp
    from Suc.hyps(1) [OF this, of "Some err"] show ?thesis
      by (simp add: key_loop_failure [OF il failure] add_events_simps)
  qed
qed

section \<open>Result projection\<close>

lemma project_item_image:
  assumes "project_item item = Inr r"
  shows "item_image r =
         (if truthy (upstream_image item) then JStr (''https:'' @ to_string (upstream_image item))
          else upstream_image item)"
  using assms
  by (auto simp add: project_item_def upstream_image_def opt_prop_def Let_def split: if_splits)

lemma project_item_url:
  assumes "project_item item = Inr r"
  shows "item_url r =
         (if truthy (upstream_url item) then JStr (''https:'' @ to_string (upstream_url item))
          else upstream_url item)"
  using assms
  by (auto simp add: project_item_def upstream_url_def opt_prop_def Let_def split: if_splits)

text \<open>
  C1 (amended). In result projection every image or url field whose upstream value is a
  non-empty string is prefixed with \<open>https:\<close>, whether or not the value already has a
  scheme: a value beginning with \<open>//\<close> comes out beginning with \<open>https://\<close>. A field that
  is absent upstream stays absent.
\<close>

theorem projection_prefixes_scheme:
  assumes "project_item item = Inr r"
  shows "(\<forall>rest. upstream_image item = JStr (''//'' @ rest) \<longrightarrow>
            item_image r = JStr (''https://'' @ rest)) \<and>
         (\<forall>s. upstream_image item = JStr s \<and> s \<noteq> [] \<longrightarrow> item_image r = JStr (''https:'' @ s)) \<and>
         (upstream_image item = JUndefined \<longrightarrow> item_image r = JUndefined) \<and>
         (\<forall>rest. upstream_url item = JStr (''//'' @ rest) \<longrightarrow>
            item_url r = JStr (''https://'' @ rest)) \<and>
         (\<forall>s. upstream_url item = JStr s \<and> s \<noteq> [] \<longrightarrow> item_url r = JStr (''https:'' @ s)) \<and>
         (upstream_url item = JUndefined \<longrightarrow> item_url r = JUndefined)"
  by (simp add: project_item_image [OF assms] project_item_url [OF assms])

theorem projection_prefixes_scheme_witness:
  "project_item product =
     Inr \<lparr> item_title = JStr ''Red shoes'', item_price = JNum ''6.28'',
           item_image = JStr ''https://ae01.alicdn.com/kf/a.jpg'',
           item_url = JStr ''https://www.aliexpress.com/item/1.html'' \<rparr> \<and>
   upstream_image product = JStr (''//'' @ ''ae01.alicdn.com/kf/a.jpg'') \<and>
   upstream_url product = JStr (''//'' @ ''www.aliexpress.com/item/1.html'') \<and>
   upstream_image (JObj [(''item'', JObj [])]) = JUndefined \<and>
   (\<exists>r. project_item (JObj [(''item'', JObj [])]) = Inr r \<and> item_image r = JUndefined \<and>
        item_url r = JUndefined)"
proof -
  have p: "project_item product =
     Inr \<lparr> item_title = JStr ''Red shoes'', item_price = JNum ''6.28'',
           item_image = JStr ''https://ae01.alicdn.com/kf/a.jpg'',
           item_url = JStr ''https://www.aliexpress.com/item/1.html'' \<rparr>"
    by (simp add: project_item_def product_def opt_prop_def)
  have e: "project_item (JObj [(''item'', JObj [])]) =
     Inr \<lparr> item_title = JUndefined, item_price = JUndefined, item_image = JUndefined,
           item_url = JUndefined \<rparr>"
    by (simp add: project_item_def opt_prop_def)
  have u: "upstream_image (JObj [(''item'', JObj [])]) = JUndefined"
      "upstream_url (JObj [(''item'', JObj [])]) = JUndefined"
    by (simp_all add: upstream_image_def upstream_url_def opt_prop_def)
  have v: "upstream_image product = JStr (''//'' @ ''ae01.alicdn.com/kf/a.jpg'')"
      "upstream_url product = JStr (''//'' @ ''www.aliexpress.com/item/1.html'')"
    by (simp_all add: upstream_image_def upstream_url_def product_def opt_prop_def)
  from projection_prefixes_scheme [OF e] projection_prefixes_scheme [OF p]
  show ?thesis
    using p e u v by simp
qed

text \<open>
  A value that already has a scheme is not left unchanged: \<open>https://h/a.jpg\<close> comes out
  as \<open>https:https://h/a.jpg\<close>.
\<close>

theorem projection_scheme_counterexample:
  "upstream_image
     (JObj [(''item'', JObj [(''image'', JStr ''https://h/a.jpg''),
                             (''itemUrl'', JStr ''https://h/1.html'')])]) =
   JStr ''https://h/a.jpg'' \<and>
   project_item
     (JObj [(''item'', JObj [(''image'', JStr ''https://h/a.jpg''),
                             (''itemUrl'', JStr ''https://h/1.html'')])]) =
   Inr \<lparr> item_title = JUndefined, item_price = JUndefined,
         item_image = JStr ''https:https://h/a.jpg'',
         item_url = JStr ''https:https://h/1.html'' \<rparr>"
  by (simp add: project_item_def upstream_image_def opt_prop_def)

section \<open>The page default of the handler\<close>

text \<open>
  C5 (amended). In the request handler, when the \<open>page\<close> query parameter is absent (or
  empty), the page passed to the search pipeline is the number 1: the alternative
  \<open>'default'\<close> of the logical or is never taken, since 1 is truthy.
\<close>

theorem handler_page_absent:
  assumes "\<not> truthy (req_page query)"
  shows "opt_page (handler_options query) = JNum ''1''"
  using assms by (simp add: handler_options_def js_or_def)

theorem handler_page_absent_witness:
  "\<not> truthy (req_page \<lparr> req_q = JStr ''shoes'', req_page = JUndefined, req_sort = JUndefined \<rparr>) \<and>
   opt_page (handler_options
     \<lparr> req_q = JStr ''shoes'', req_page = JUndefined, req_sort = JUndefined \<rparr>) = JNum ''1''"
  using handler_page_absent
    [of "\<lparr> req_q = JStr ''shoes'', req_page = JUndefined, req_sort = JUndefined \<rparr>"]
  by simp

theorem handler_page_counterexample:
  "opt_page (handler_options
     \<lparr> req_q = JStr ''shoes'', req_page = JUndefined, req_sort = JUndefined \<rparr>)
   \<noteq> JStr ''default''"
  by (simp add: handler_options_def js_or_def)

section \<open>The trace of a run\<close>

lemma optimize_events:
  "search_keys (snd (optimizeSearchQuery w query)) = []"
  "search_urls (snd (optimizeSearchQuery w query)) = []"
  "cache_keys (snd (optimizeSearchQuery w query)) = []"
  "ai_calls (snd (optimizeSearchQuery w query)) = snd (optimizeSearchQuery w query)"
  by (simp_all add: optimizeSearchQuery_def Let_def)

lemma optimize_without_key:
  assumes "HACKCLUB_API_KEY w = None \<or> HACKCLUB_API_KEY w = Some []"
  shows "optimizeSearchQuery w query = (query, [])"
  using assms by (auto simp add: optimizeSearchQuery_def env_val_def)

text \<open>The five ways through \<open>searchAliExpress\<close>.\<close>

lemma searchAliExpress_cases:
  obtains
    (invalid) "\<not> truthy (opt_q opts)"
      "searchAliExpress w opts = failed w (Error ''Search query (q) is required'') []"
  | (hit) r where "truthy (opt_q opts)" "cached w opts = Some r"
      "searchAliExpress w opts =
         \<lparr> out_result = Inr r, out_file = cache_file w,
           out_events = [CacheLookup (cache_key opts)] \<rparr>"
  | (no_key) "truthy (opt_q opts)" "cached w opts = None" "\<not> truthy (eff_key w opts)"
      "searchAliExpress w opts =
         failed w (Error ''RapidAPI key is required. Set RAPIDAPI_KEY in .env file'')
           (CacheLookup (cache_key opts) # snd (optimizeSearchQuery w (opt_q opts)))"
  | (null_page) err where "truthy (opt_q opts)" "cached w opts = None"
      "truthy (eff_key w opts)" "nullish (eff_page opts)"
      "searchAliExpress w opts =
         failed w err (CacheLookup (cache_key opts) # snd (optimizeSearchQuery w (opt_q opts)))"
  | (miss) "reaches_upstream w opts" "truthy (eff_key w opts)"
      "searchAliExpress w opts =
         add_events (CacheLookup (cache_key opts) # snd (optimizeSearchQuery w (opt_q opts)))
           (key_loop w (request_url w opts) (loadCache (cache_file w)) (cache_key opts)
              (api_keys (eff_key w opts)) 0 None)"
proof (cases "truthy (opt_q opts)")
  case False
  then show ?thesis using invalid searchAliExpress_invalid by blast
next
  case q: True
  show ?thesis
  proof (cases "cached w opts")
    case (Some r)
    then show ?thesis using hit q searchAliExpress_hit by blast
  next
    case None
    show ?thesis
    proof (cases "truthy (eff_key w opts)")
      case False
      then show ?thesis using no_key q None searchAliExpress_no_key by blast
    next
      case k: True
      show ?thesis
      proof (cases "nullish (eff_page opts)")
        case True
        then show ?thesis using null_page q None k searchAliExpress_null_page by blast
      next
        case False
        then have "reaches_upstream w opts" using q None by (simp add: reaches_upstream_def)
        then show ?thesis using miss k searchAliExpress_miss by blast
      qed
    qed
  qed
qed

lemma run_search_urls:
  "set (search_urls (out_events (searchAliExpress w opts))) \<subseteq> {request_url w opts}"
  by (rule searchAliExpress_cases [where w = w and opts = opts])
     (simp_all add: failed_def add_events_simps search_urls_append optimize_events
        key_loop_events)


lemma run_ai_calls:
  "ai_calls (out_events (searchAliExpress w opts)) =
     (if truthy (opt_q opts) \<and> cached w opts = None
      then snd (optimizeSearchQuery w (opt_q opts)) else [])"
  by (rule searchAliExpress_cases [where w = w and opts = opts])
     (simp_all add: failed_def add_events_simps ai_calls_append optimize_events
        key_loop_events reaches_upstream_def)

section \<open>The sample deployment, evaluated\<close>

lemmas pipeline_defs =
  searchAliExpress_def optimizeSearchQuery_def optimize_try_def choice_content_def
  try_key_def project_results_def project_item_def exhausted_def failed_def add_events_def
  api_keys_def page_toString_def getCacheKey_def loadCache_def saveCache_def
  env_val_def or_default_def opt_prop_def resp_ok_def js_trim_def is_space_def Let_def

lemmas sample_defs =
  shop_def request_def upstream_def rewriter_def json_reply_def text_reply_def
  product_def product_found_def

lemmas vocabulary_defs =
  eff_page_def eff_sort_def eff_key_def cache_key_def cached_def request_url_def
  reaches_upstream_def refused_def attempt_error_def key_fails_def

section \<open>The optimizer without a credential\<close>

text \<open>
  C7. When no language-model credential is configured (the variable is unset or empty),
  the optimizer returns its input and sends nothing; hence a run of the pipeline makes no
  call to the AI endpoint, and every search request it sends carries the input query.
\<close>

theorem no_ai_credential:
  assumes "HACKCLUB_API_KEY w = None \<or> HACKCLUB_API_KEY w = Some []"
  shows "optimizeSearchQuery w query = (query, []) \<and>
         ai_calls (out_events (searchAliExpress w opts)) = [] \<and>
         (\<forall>url \<in> set (search_urls (out_events (searchAliExpress w opts))).
            map_of url ''q'' = Some (to_string (opt_q opts)))"
proof -
  have same: "optimizeSearchQuery w query = (query, [])" for query
    by (rule optimize_without_key [OF assms])
  have "request_url w opts =
          [(''q'', to_string (opt_q opts)), (''page'', to_string (eff_page opts)),
           (''sort'', to_string (eff_sort opts))]"
    by (simp add: request_url_def same)
  then have "\<forall>url \<in> set (search_urls (out_events (searchAliExpress w opts))).
            map_of url ''q'' = Some (to_string (opt_q opts))"
    using run_search_urls [of w opts] by auto
  then show ?thesis by (simp add: same run_ai_calls)
qed

theorem no_ai_credential_witness:
  "(HACKCLUB_API_KEY (shop\<lparr>HACKCLUB_API_KEY := None\<rparr>) = None \<or>
    HACKCLUB_API_KEY (shop\<lparr>HACKCLUB_API_KEY := None\<rparr>) = Some []) \<and>
   optimizeSearchQuery (shop\<lparr>HACKCLUB_API_KEY := None\<rparr>) (opt_q request) = (opt_q request, []) \<and>
   ai_calls (out_events (searchAliExpress (shop\<lparr>HACKCLUB_API_KEY := None\<rparr>) request)) = [] \<and>
   search_urls (out_events (searchAliExpress (shop\<lparr>HACKCLUB_API_KEY := None\<rparr>) request)) =
     [[(''q'', ''nice red shoes for running''), (''page'', ''1''), (''sort'', ''default'')],
      [(''q'', ''nice red shoes for running''), (''page'', ''1''), (''sort'', ''default'')],
      [(''q'', ''nice red shoes for running''), (''page'', ''1''), (''sort'', ''default'')]]"
proof -
  have h: "HACKCLUB_API_KEY (shop\<lparr>HACKCLUB_API_KEY := None\<rparr>) = None \<or>
           HACKCLUB_API_KEY (shop\<lparr>HACKCLUB_API_KEY := None\<rparr>) = Some []"
    by simp
  have urls: "search_urls (out_events (searchAliExpress (shop\<lparr>HACKCLUB_API_KEY := None\<rparr>) request)) =
     [[(''q'', ''nice red shoes for running''), (''page'', ''1''), (''sort'', ''default'')],
      [(''q'', ''nice red shoes for running''), (''page'', ''1''), (''sort'', ''default'')],
      [(''q'', ''nice red shoes for running''), (''page'', ''1''), (''sort'', ''default'')]]"
    by (simp add: pipeline_defs sample_defs key_loop.simps show_nat.simps)
  from no_ai_credential [OF h, of "opt_q request" request] h urls show ?thesis
    by simp
qed

section \<open>Cache keys\<close>



section \<open>An empty key array\<close>

text \<open>
  C9. When the credentials are given as an empty array and the request reaches the
  upstream stage (it is valid and not in the cache), the missing-credential check lets the
  array pass, for an array is truthy; the loop sends no request; and the statement after
  the loop reads \<open>message\<close> of the null \<open>lastError\<close>, so the run fails with a TypeError and
  not with the message about the exhausted keys.
\<close>

theorem empty_key_array:
  assumes "reaches_upstream w opts" and "opt_rapidApiKey opts = JArr []"
  shows "truthy (eff_key w opts) \<and>
         search_keys (out_events (searchAliExpress w opts)) = [] \<and>
         out_result (searchAliExpress w opts) =
           Inl (TypeError (''Cannot read properties of null (reading '' @ [CHR 0x27] @
                           ''message'' @ [CHR 0x27] @ '')''))"
proof -
  have k: "eff_key w opts = JArr []"
    using assms(2) by (simp add: eff_key_def or_default_def)
  then have t: "truthy (eff_key w opts)" by simp
  have "api_keys (eff_key w opts) = []" using k by (simp add: api_keys_def)
  then show ?thesis
    using t by (simp add: searchAliExpress_miss [OF assms(1) t] key_loop_end exhausted_def
        add_events_simps optimize_events search_keys_append)
qed

theorem empty_key_array_witness:
  "reaches_upstream shop (request\<lparr>opt_rapidApiKey := JArr []\<rparr>) \<and>
   opt_rapidApiKey (request\<lparr>opt_rapidApiKey := JArr []\<rparr>) = JArr [] \<and>
   search_keys (out_events (searchAliExpress shop (request\<lparr>opt_rapidApiKey := JArr []\<rparr>))) = [] \<and>
   out_result (searchAliExpress shop (request\<lparr>opt_rapidApiKey := JArr []\<rparr>)) =
     Inl (TypeError (''Cannot read properties of null (reading '' @ [CHR 0x27] @
                     ''message'' @ [CHR 0x27] @ '')''))"
proof -
  have h: "reaches_upstream shop (request\<lparr>opt_rapidApiKey := JArr []\<rparr>)"
    by (simp add: pipeline_defs sample_defs vocabulary_defs)
  have g: "opt_rapidApiKey (request\<lparr>opt_rapidApiKey := JArr []\<rparr>) = JArr []"
    by simp
  from empty_key_array [OF h g] h g show ?thesis by simp
qed

section \<open>Credential rotation\<close>

text \<open>The position of a key in the list shows only in the message of a refusal.\<close>

lemma try_key_index:
  "try_key w url i key =
     (case try_key w url 0 key of
        Forbidden err \<Rightarrow>
          Forbidden (Error (''API key '' @ show_nat (i + 1) @ '' returned 403 Forbidden''))
      | Thrown err \<Rightarrow> Thrown err
      | Found r \<Rightarrow> Found r)"
proof (cases "search_endpoint w url key")
  case (Inl err)
  then show ?thesis by (simp add: try_key_def)
next
  case (Inr response)
  show ?thesis
  proof (cases "resp_status response = 403")
    case True
    with Inr show ?thesis by (simp add: try_key_def)
  next
    case False
    with Inr have "try_key w url i key = try_key w url 0 key"
      by (simp add: try_key_def)
    moreover have "\<And>err. try_key w url 0 key \<noteq> Forbidden err"
      using Inr False by (simp add: try_key_def split: sum.splits)
    ultimately show ?thesis by (cases "try_key w url 0 key") auto
  qed
qed

lemma try_key_fails_at:
  assumes "key_fails w url key"
  shows "attempt_error (try_key w url i key) \<noteq> None"
proof (cases "try_key w url 0 key")
  case (Found r)
  with assms show ?thesis by (simp add: key_fails_def attempt_error_def)
qed (simp_all add: try_key_index [of w url i key] attempt_error_def)

lemma try_key_found_at:
  assumes "try_key w url i key = Found r"
  shows "try_key w url j key = Found r"
proof -
  from assms have "try_key w url 0 key = Found r"
    by (cases "try_key w url 0 key") (simp_all add: try_key_index [of w url i key])
  then show ?thesis by (simp add: try_key_index [of w url j key])
qed

lemma try_key_refused:
  assumes "refused w url key"
  shows "try_key w url i key =
         Forbidden (Error (''API key '' @ show_nat (i + 1) @ '' returned 403 Forbidden''))"
  using assms by (cases "search_endpoint w url key") (simp_all add: refused_def try_key_def)

lemma refused_fails:
  assumes "refused w url key"
  shows "key_fails w url key"
  by (simp add: key_fails_def try_key_refused [OF assms] attempt_error_def)

text \<open>The loop over keys that all fail.\<close>

lemma key_loop_all_fail:
  assumes "ks \<noteq> []" and "\<forall>key \<in> set ks. key_fails w url key"
  shows "key_loop w url c key ks 0 None =
         add_events (map (SearchCall url) ks)
           (exhausted w ks (attempt_error (try_key w url (length ks - 1) (last ks))))"
proof -
  have "\<forall>n. 0 \<le> n \<and> n < length ks \<longrightarrow> attempt_error (try_key w url n (ks ! n)) \<noteq> None"
    using assms(2) try_key_fails_at by (metis nth_mem)
  from key_loop_skip [OF le_refl _ this, of c key None] assms(1)
  show ?thesis by (simp add: key_loop_end last_conv_nth)
qed

text \<open>The loop over keys of which the first to succeed is at position \<open>length pre\<close>.\<close>

lemma key_loop_first_found:
  assumes "\<forall>key \<in> set pre. key_fails w url key" and "try_key w url 0 k = Found r"
  shows "key_loop w url c key (pre @ k # post) 0 None =
         \<lparr> out_result = Inr r,
           out_file = saveCache w (AList.update key r c),
           out_events = map (SearchCall url) pre @ [SearchCall url k, CacheStore key r] \<rparr>"
proof -
  let ?ks = "pre @ k # post"
  have fails: "\<forall>n. 0 \<le> n \<and> n < length pre \<longrightarrow>
      attempt_error (try_key w url n (?ks ! n)) \<noteq> None"
  proof (intro allI impI)
    fix n assume "0 \<le> n \<and> n < length pre"
    then have "?ks ! n \<in> set pre" by (simp add: nth_append)
    with assms(1) have "key_fails w url (?ks ! n)" by blast
    then show "attempt_error (try_key w url n (?ks ! n)) \<noteq> None"
      by (rule try_key_fails_at)
  qed
  have len: "length pre \<le> length ?ks" by simp
  have found: "try_key w url (length pre) (?ks ! length pre) = Found r"
    using try_key_found_at [OF assms(2)] by simp
  have at: "length pre < length ?ks" by simp
  show ?thesis
    by (simp add: key_loop_skip [OF len _ fails, of c key None]
        key_loop_found [OF at found] add_events_def)
qed

text \<open>
  C6. When the request reaches the upstream stage with a non-empty list of \<open>N\<close> keys and
  the attempt with every key fails (status 403, a transport error, another non-success
  status, an error field, or anything else thrown), the run fails with one error whose
  message names \<open>N\<close> and ends with the message of the error of the last attempt; each key
  was tried once, in order.
\<close>

theorem all_keys_fail:
  assumes "reaches_upstream w opts" and "truthy (eff_key w opts)"
    and "api_keys (eff_key w opts) = ks" and "ks \<noteq> []"
    and "\<forall>key \<in> set ks. key_fails w (request_url w opts) key"
  shows "\<exists>err. attempt_error (try_key w (request_url w opts) (length ks - 1) (last ks)) = Some err \<and>
           out_result (searchAliExpress w opts) =
             Inl (Error (''Failed to search AliExpress with all '' @ show_nat (length ks) @
                         '' API key(s). Last error: '' @ message err)) \<and>
           search_keys (out_events (searchAliExpress w opts)) = ks"
proof -
  have "last ks \<in> set ks" using assms(4) by simp
  then have "key_fails w (request_url w opts) (last ks)"
    using assms(5) by blast
  then have "attempt_error (try_key w (request_url w opts) (length ks - 1) (last ks)) \<noteq> None"
    by (rule try_key_fails_at)
  then obtain err where
    err: "attempt_error (try_key w (request_url w opts) (length ks - 1) (last ks)) = Some err"
    by auto
  have "searchAliExpress w opts =
      add_events (CacheLookup (cache_key opts) # snd (optimizeSearchQuery w (opt_q opts)))
        (add_events (map (SearchCall (request_url w opts)) ks) (exhausted w ks (Some err)))"
    using err
    by (simp add: searchAliExpress_miss [OF assms(1,2)] assms(3)
        key_loop_all_fail [OF assms(4,5)])
  then show ?thesis
    using err
    by (simp add: add_events_simps exhausted_def search_keys_append optimize_events
        search_keys_calls)
qed

theorem all_keys_fail_witness:
  "reaches_upstream (shop\<lparr>RAPIDAPI_KEY := Some ''bad, down, limit, err''\<rparr>) request \<and>
   api_keys (eff_key (shop\<lparr>RAPIDAPI_KEY := Some ''bad, down, limit, err''\<rparr>) request) =
     [JStr ''bad'', JStr ''down'', JStr ''limit'', JStr ''err''] \<and>
   key_fails (shop\<lparr>RAPIDAPI_KEY := Some ''bad, down, limit, err''\<rparr>)
     (request_url (shop\<lparr>RAPIDAPI_KEY := Some ''bad, down, limit, err''\<rparr>) request)
     (JStr ''bad'') \<and>
   key_fails (shop\<lparr>RAPIDAPI_KEY := Some ''bad, down, limit, err''\<rparr>)
     (request_url (shop\<lparr>RAPIDAPI_KEY := Some ''bad, down, limit, err''\<rparr>) request)
     (JStr ''down'') \<and>
   key_fails (shop\<lparr>RAPIDAPI_KEY := Some ''bad, down, limit, err''\<rparr>)
     (request_url (shop\<lparr>RAPIDAPI_KEY := Some ''bad, down, limit, err''\<rparr>) request)
     (JStr ''limit'') \<and>
   key_fails (shop\<lparr>RAPIDAPI_KEY := Some ''bad, down, limit, err''\<rparr>)
     (request_url (shop\<lparr>RAPIDAPI_KEY := Some ''bad, down, limit, err''\<rparr>) request)
     (JStr ''err'') \<and>
   out_result (searchAliExpress (shop\<lparr>RAPIDAPI_KEY := Some ''bad, down, limit, err''\<rparr>) request) =
     Inl (Error ''Failed to search AliExpress with all 4 API key(s). Last error: API Error: quota'')"
proof -
  let ?w = "shop\<lparr>RAPIDAPI_KEY := Some ''bad, down, limit, err''\<rparr>"
  let ?ks = "[JStr ''bad'', JStr ''down'', JStr ''limit'', JStr ''err'']"
  have h1: "reaches_upstream ?w request"
    by (simp add: pipeline_defs sample_defs vocabulary_defs)
  have h2: "truthy (eff_key ?w request)"
    by (simp add: pipeline_defs sample_defs vocabulary_defs)
  have h3: "api_keys (eff_key ?w request) = ?ks"
    by (simp add: pipeline_defs sample_defs vocabulary_defs)
  have h4: "?ks \<noteq> []" by simp
  have f1: "key_fails ?w (request_url ?w request) (JStr ''bad'')"
    and f2: "key_fails ?w (request_url ?w request) (JStr ''down'')"
    and f3: "key_fails ?w (request_url ?w request) (JStr ''limit'')"
    and f4: "key_fails ?w (request_url ?w request) (JStr ''err'')"
    by (simp_all add: pipeline_defs sample_defs vocabulary_defs)
  then have h5: "\<forall>key \<in> set ?ks. key_fails ?w (request_url ?w request) key"
    by simp
  have last: "attempt_error (try_key ?w (request_url ?w request) (length ?ks - 1) (last ?ks)) =
              Some (Error ''API Error: quota'')"
    by (simp add: pipeline_defs sample_defs vocabulary_defs)
  have n: "show_nat (length ?ks) = ''4''"
    by (simp add: show_nat.simps)
  from all_keys_fail [OF h1 h2 h3 h4 h5] obtain err where
    "attempt_error (try_key ?w (request_url ?w request) (length ?ks - 1) (last ?ks)) = Some err"
    and r: "out_result (searchAliExpress ?w request) =
       Inl (Error (''Failed to search AliExpress with all '' @ show_nat (length ?ks) @
                   '' API key(s). Last error: '' @ message err))"
    by blast
  with last have "err = Error ''API Error: quota''" by simp
  with r n have c: "out_result (searchAliExpress ?w request) =
     Inl (Error ''Failed to search AliExpress with all 4 API key(s). Last error: API Error: quota'')"
    by simp
  show ?thesis by (intro conjI h1 h3 f1 f2 f3 f4 c)
qed

text \<open>
  C2. Let the configured credentials be \<open>pre @ k # post\<close>, let the upstream answer the
  request with status 403 for every key of \<open>pre\<close>, and let a direct call with \<open>k\<close> as the
  only credential succeed with the list \<open>r\<close>. Then the call with all the credentials
  returns \<open>r\<close> as well and leaves the same cache file; the requests it sends to the search
  endpoint are those for \<open>pre\<close> and then \<open>k\<close> (none at all when the request is served from
  the cache), so no key of \<open>post\<close> is used.
\<close>

theorem first_working_key:
  assumes "truthy (eff_key w opts)"
    and "api_keys (eff_key w opts) = pre @ k # post"
    and "\<forall>key \<in> set pre. refused w (request_url w opts) key"
    and "out_result (searchAliExpress w (opts\<lparr>opt_rapidApiKey := JArr [k]\<rparr>)) = Inr r"
  shows "out_result (searchAliExpress w opts) = Inr r \<and>
         out_file (searchAliExpress w opts) =
           out_file (searchAliExpress w (opts\<lparr>opt_rapidApiKey := JArr [k]\<rparr>)) \<and>
         search_keys (out_events (searchAliExpress w opts)) =
           (if cached w opts = None then pre @ [k] else [])"
proof -
  let ?direct = "opts\<lparr>opt_rapidApiKey := JArr [k]\<rparr>"
  have same: "cache_key ?direct = cache_key opts" "cached w ?direct = cached w opts"
    "request_url w ?direct = request_url w opts" "eff_page ?direct = eff_page opts"
    "opt_q ?direct = opt_q opts"
    by (simp_all add: cache_key_def cached_def request_url_def eff_page_def eff_sort_def)
  have dkey: "api_keys (eff_key w ?direct) = [k]"
    by (simp add: eff_key_def or_default_def api_keys_def)
  show ?thesis
  proof (rule searchAliExpress_cases [where w = w and opts = ?direct])
    assume "searchAliExpress w ?direct = failed w (Error ''Search query (q) is required'') []"
    with assms(4) show ?thesis by (simp add: failed_def)
  next
    fix r' assume hit: "truthy (opt_q ?direct)" "cached w ?direct = Some r'"
      and run: "searchAliExpress w ?direct =
         \<lparr> out_result = Inr r', out_file = cache_file w,
           out_events = [CacheLookup (cache_key ?direct)] \<rparr>"
    from run assms(4) have "r' = r" by simp
    with hit same have "truthy (opt_q opts)" "cached w opts = Some r" by simp_all
    from searchAliExpress_hit [OF this] run show ?thesis
      using \<open>cached w opts = Some r\<close> by simp
  next
    assume "searchAliExpress w ?direct =
         failed w (Error ''RapidAPI key is required. Set RAPIDAPI_KEY in .env file'')
           (CacheLookup (cache_key ?direct) # snd (optimizeSearchQuery w (opt_q ?direct)))"
    with assms(4) show ?thesis by (simp add: failed_def)
  next
    fix err assume "searchAliExpress w ?direct =
         failed w err (CacheLookup (cache_key ?direct) # snd (optimizeSearchQuery w (opt_q ?direct)))"
    with assms(4) show ?thesis by (simp add: failed_def)
  next
    assume reach: "reaches_upstream w ?direct"
      and run: "searchAliExpress w ?direct =
         add_events (CacheLookup (cache_key ?direct) # snd (optimizeSearchQuery w (opt_q ?direct)))
           (key_loop w (request_url w ?direct) (loadCache (cache_file w)) (cache_key ?direct)
              (api_keys (eff_key w ?direct)) 0 None)"
    from reach same have reach': "reaches_upstream w opts"
      by (simp add: reaches_upstream_def)
    then have miss: "cached w opts = None" by (simp add: reaches_upstream_def)
    let ?url = "request_url w opts"
    let ?c = "loadCache (cache_file w)"
    let ?key = "cache_key opts"
    have found: "try_key w ?url 0 k = Found r"
    proof (cases "try_key w ?url 0 k" rule: attempt_cases)
      case (found results)
      with run assms(4) show ?thesis
        by (simp add: same dkey add_events_simps key_loop_found)
    next
      case (failure err)
      then have "key_loop w ?url ?c ?key [k] 0 None =
            add_events [SearchCall ?url k] (exhausted w [k] (Some err))"
        by (simp add: key_loop_failure key_loop_end)
      with run assms(4) show ?thesis
        by (simp add: same dkey add_events_simps exhausted_def)
    qed
    have fails: "\<forall>key \<in> set pre. key_fails w ?url key"
      using assms(3) by (blast intro: refused_fails)
    have direct: "key_loop w ?url ?c ?key [k] 0 None =
        \<lparr> out_result = Inr r, out_file = saveCache w (AList.update ?key r ?c),
          out_events = [SearchCall ?url k, CacheStore ?key r] \<rparr>"
      using key_loop_first_found [of "[]" w ?url k r ?c ?key "[]"] found by simp
    have full: "key_loop w ?url ?c ?key (pre @ k # post) 0 None =
        \<lparr> out_result = Inr r, out_file = saveCache w (AList.update ?key r ?c),
          out_events = map (SearchCall ?url) pre @ [SearchCall ?url k, CacheStore ?key r] \<rparr>"
      by (rule key_loop_first_found [OF fails found])
    show ?thesis
      using miss
      by (simp add: searchAliExpress_miss [OF reach' assms(1)] assms(2) full run same dkey
          direct add_events_simps search_keys_append optimize_events
          search_keys_calls)
  qed
qed

theorem first_working_key_witness:
  "truthy (eff_key shop request) \<and>
   api_keys (eff_key shop request) = [JStr ''bad1'', JStr ''bad2''] @ JStr ''good'' # [JStr ''spare''] \<and>
   refused shop (request_url shop request) (JStr ''bad1'') \<and>
   refused shop (request_url shop request) (JStr ''bad2'') \<and>
   out_result (searchAliExpress shop (request\<lparr>opt_rapidApiKey := JArr [JStr ''good'']\<rparr>)) =
     Inr product_found \<and>
   out_result (searchAliExpress shop request) = Inr product_found \<and>
   search_keys (out_events (searchAliExpress shop request)) =
     [JStr ''bad1'', JStr ''bad2'', JStr ''good'']"
proof -
  have h1: "truthy (eff_key shop request)"
    by (simp add: pipeline_defs sample_defs vocabulary_defs)
  have h2: "api_keys (eff_key shop request) =
            [JStr ''bad1'', JStr ''bad2''] @ JStr ''good'' # [JStr ''spare'']"
    by (simp add: pipeline_defs sample_defs vocabulary_defs)
  have r1: "refused shop (request_url shop request) (JStr ''bad1'')"
    and r2: "refused shop (request_url shop request) (JStr ''bad2'')"
    by (simp_all add: pipeline_defs sample_defs vocabulary_defs)
  then have h3:
    "\<forall>key \<in> set [JStr ''bad1'', JStr ''bad2'']. refused shop (request_url shop request) key"
    by simp
  have h4: "out_result (searchAliExpress shop (request\<lparr>opt_rapidApiKey := JArr [JStr ''good'']\<rparr>)) =
            Inr product_found"
    by (simp add: pipeline_defs sample_defs key_loop.simps)
  have miss: "cached shop request = None"
    by (simp add: pipeline_defs sample_defs vocabulary_defs)
  note c = first_working_key [OF h1 h2 h3 h4]
  have c1: "out_result (searchAliExpress shop request) = Inr product_found"
    by (rule conjunct1 [OF c])
  have c3: "search_keys (out_events (searchAliExpress shop request)) =
            [JStr ''bad1'', JStr ''bad2'', JStr ''good'']"
    using conjunct2 [OF conjunct2 [OF c]] miss by simp
  show ?thesis by (intro conjI h1 h2 r1 r2 h4 c1 c3)
qed

section \<open>Repeated requests\<close>

text \<open>A successful run leaves its result in the cache file, if the file can be written.\<close>

lemma result_stored:
  assumes "out_result (searchAliExpress w opts) = Inr r"
    and "cache_writable w \<or> cached w opts \<noteq> None"
  shows "map_of (loadCache (out_file (searchAliExpress w opts))) (cache_key opts) = Some r"
proof (rule searchAliExpress_cases [where w = w and opts = opts])
  fix r' assume "cached w opts = Some r'"
    and "searchAliExpress w opts =
         \<lparr> out_result = Inr r', out_file = cache_file w,
           out_events = [CacheLookup (cache_key opts)] \<rparr>"
  with assms(1) show ?thesis by (simp add: cached_def)
next
  assume reach: "reaches_upstream w opts"
    and run: "searchAliExpress w opts =
         add_events (CacheLookup (cache_key opts) # snd (optimizeSearchQuery w (opt_q opts)))
           (key_loop w (request_url w opts) (loadCache (cache_file w)) (cache_key opts)
              (api_keys (eff_key w opts)) 0 None)"
  from reach assms(2) have "cache_writable w" by (simp add: reaches_upstream_def)
  moreover from run assms(1) have "out_file (searchAliExpress w opts) =
      saveCache w (AList.update (cache_key opts) r (loadCache (cache_file w)))"
    by (simp add: add_events_simps key_loop_success)
  ultimately show ?thesis
    by (simp add: saveCache_def loadCache_def update_conv')
qed (use assms(1) in \<open>simp_all add: failed_def\<close>)

lemma repeat_served_from_cache:
  assumes "out_result (searchAliExpress w o1) = Inr r"
    and "cache_writable w \<or> cached w o1 \<noteq> None"
    and "cache_file w' = out_file (searchAliExpress w o1)"
    and "opt_q o2 = opt_q o1" and "opt_page o2 = opt_page o1" and "opt_sort o2 = opt_sort o1"
  shows "searchAliExpress w' o2 =
         \<lparr> out_result = Inr r, out_file = cache_file w',
           out_events = [CacheLookup (cache_key o1)] \<rparr>"
proof -
  have key: "cache_key o2 = cache_key o1"
    using assms(4-6) by (simp add: cache_key_def eff_page_def eff_sort_def)
  have "truthy (opt_q o1)"
    using assms(1) by (cases "truthy (opt_q o1)") (simp_all add: searchAliExpress_invalid failed_def)
  then have q: "truthy (opt_q o2)" using assms(4) by simp
  have "cached w' o2 = Some r"
    using result_stored [OF assms(1,2)] by (simp add: cached_def key assms(3))
  from searchAliExpress_hit [OF q this] show ?thesis by (simp add: key)
qed




section \<open>An answer without a result list\<close>

lemma try_key_empty_answer:
  assumes "empty_answer w url key"
  shows "try_key w url i key = Found []"
proof (cases "search_endpoint w url key")
  case (Inl err)
  with assms show ?thesis by (simp add: empty_answer_def)
next
  case (Inr response)
  with assms have ok: "resp_ok response" by (simp add: empty_answer_def)
  then have "resp_status response \<noteq> 403" by (simp add: resp_ok_def)
  with assms Inr ok show ?thesis
    by (cases "resp_json response")
       (simp_all add: empty_answer_def try_key_def project_results_def)
qed

text \<open>
  C10 (amended). Let the request reach the upstream stage, let the keys before \<open>k\<close> fail,
  and let the upstream answer \<open>k\<close> with a success status and a JSON value, not null, that
  has no truthy error field and whose \<open>result.resultList\<close> is absent or null. Then the run
  returns the empty list and stores it under the key of the request. If moreover the
  cache file can be written, a later identical request on that file returns the empty
  list from the cache and sends nothing to the search endpoint.
\<close>

theorem empty_answer_is_cached:
  assumes "reaches_upstream w opts" and "truthy (eff_key w opts)"
    and "api_keys (eff_key w opts) = pre @ k # post"
    and "\<forall>key \<in> set pre. key_fails w (request_url w opts) key"
    and "empty_answer w (request_url w opts) k"
  shows "out_result (searchAliExpress w opts) = Inr [] \<and>
         CacheStore (cache_key opts) [] \<in> set (out_events (searchAliExpress w opts)) \<and>
         (cache_writable w \<and> cache_file w' = out_file (searchAliExpress w opts) \<longrightarrow>
            out_file (searchAliExpress w opts) =
              Holding (AList.update (cache_key opts) [] (loadCache (cache_file w))) \<and>
            out_result (searchAliExpress w' opts) = Inr [] \<and>
            search_keys (out_events (searchAliExpress w' opts)) = [])"
proof -
  have found: "try_key w (request_url w opts) 0 k = Found []"
    by (rule try_key_empty_answer [OF assms(5)])
  have run: "searchAliExpress w opts =
      add_events (CacheLookup (cache_key opts) # snd (optimizeSearchQuery w (opt_q opts)))
        \<lparr> out_result = Inr [],
          out_file = saveCache w (AList.update (cache_key opts) [] (loadCache (cache_file w))),
          out_events = map (SearchCall (request_url w opts)) pre @
            [SearchCall (request_url w opts) k, CacheStore (cache_key opts) []] \<rparr>"
    by (simp add: searchAliExpress_miss [OF assms(1,2)] assms(3)
        key_loop_first_found [OF assms(4) found])
  have r: "out_result (searchAliExpress w opts) = Inr []"
    by (simp add: run add_events_simps)
  have s: "CacheStore (cache_key opts) [] \<in> set (out_events (searchAliExpress w opts))"
    by (simp add: run add_events_simps)
  have later: "out_file (searchAliExpress w opts) =
              Holding (AList.update (cache_key opts) [] (loadCache (cache_file w))) \<and>
      out_result (searchAliExpress w' opts) = Inr [] \<and>
      search_keys (out_events (searchAliExpress w' opts)) = []"
    if "cache_writable w" and f: "cache_file w' = out_file (searchAliExpress w opts)"
  proof -
    have "cache_writable w \<or> cached w opts \<noteq> None" using that by simp
    from repeat_served_from_cache [OF r this f refl refl refl] that(1)
    show ?thesis by (simp add: run add_events_simps saveCache_def)
  qed
  from r s later show ?thesis by blast
qed

theorem empty_answer_is_cached_witness:
  "reaches_upstream (shop\<lparr>RAPIDAPI_KEY := Some ''bad1, empty''\<rparr>) request \<and>
   truthy (eff_key (shop\<lparr>RAPIDAPI_KEY := Some ''bad1, empty''\<rparr>) request) \<and>
   api_keys (eff_key (shop\<lparr>RAPIDAPI_KEY := Some ''bad1, empty''\<rparr>) request) =
     [JStr ''bad1''] @ JStr ''empty'' # [] \<and>
   key_fails (shop\<lparr>RAPIDAPI_KEY := Some ''bad1, empty''\<rparr>)
     (request_url (shop\<lparr>RAPIDAPI_KEY := Some ''bad1, empty''\<rparr>) request) (JStr ''bad1'') \<and>
   empty_answer (shop\<lparr>RAPIDAPI_KEY := Some ''bad1, empty''\<rparr>)
     (request_url (shop\<lparr>RAPIDAPI_KEY := Some ''bad1, empty''\<rparr>) request) (JStr ''empty'') \<and>
   cache_writable (shop\<lparr>RAPIDAPI_KEY := Some ''bad1, empty''\<rparr>) \<and>
   out_result (searchAliExpress (shop\<lparr>RAPIDAPI_KEY := Some ''bad1, empty''\<rparr>) request) = Inr [] \<and>
   out_file (searchAliExpress (shop\<lparr>RAPIDAPI_KEY := Some ''bad1, empty''\<rparr>) request) =
     Holding [(''nice red shoes for running|1|default'', [])] \<and>
   out_result (searchAliExpress
     (shop\<lparr>RAPIDAPI_KEY := Some ''bad1, empty'',
            cache_file := Holding [(''nice red shoes for running|1|default'', [])]\<rparr>) request) =
     Inr [] \<and>
   search_keys (out_events (searchAliExpress
     (shop\<lparr>RAPIDAPI_KEY := Some ''bad1, empty'',
            cache_file := Holding [(''nice red shoes for running|1|default'', [])]\<rparr>) request)) = []"
proof -
  let ?w = "shop\<lparr>RAPIDAPI_KEY := Some ''bad1, empty''\<rparr>"
  let ?w' = "shop\<lparr>RAPIDAPI_KEY := Some ''bad1, empty'',
                   cache_file := Holding [(''nice red shoes for running|1|default'', [])]\<rparr>"
  have h1: "reaches_upstream ?w request"
    by (simp add: pipeline_defs sample_defs vocabulary_defs)
  have h2: "truthy (eff_key ?w request)"
    by (simp add: pipeline_defs sample_defs vocabulary_defs)
  have h3: "api_keys (eff_key ?w request) = [JStr ''bad1''] @ JStr ''empty'' # []"
    by (simp add: pipeline_defs sample_defs vocabulary_defs)
  have f1: "key_fails ?w (request_url ?w request) (JStr ''bad1'')"
    by (simp add: pipeline_defs sample_defs vocabulary_defs)
  then have h4: "\<forall>key \<in> set [JStr ''bad1'']. key_fails ?w (request_url ?w request) key"
    by simp
  have h5: "empty_answer ?w (request_url ?w request) (JStr ''empty'')"
    by (simp add: empty_answer_def pipeline_defs sample_defs vocabulary_defs)
  have h6: "cache_writable ?w" by (simp add: shop_def)
  have k: "cache_key request = ''nice red shoes for running|1|default''"
    by (simp add: pipeline_defs sample_defs vocabulary_defs)
  have l: "loadCache (cache_file ?w) = []"
    by (simp add: loadCache_def shop_def)
  note c = empty_answer_is_cached [OF h1 h2 h3 h4 h5, of ?w']
  have c1: "out_result (searchAliExpress ?w request) = Inr []"
    by (rule conjunct1 [OF c])
  have f: "out_file (searchAliExpress ?w request) =
           Holding [(''nice red shoes for running|1|default'', [])]"
    by (simp add: pipeline_defs sample_defs key_loop.simps)
  then have "cache_writable ?w \<and> cache_file ?w' = out_file (searchAliExpress ?w request)"
    using h6 by simp
  with c have later: "out_result (searchAliExpress ?w' request) = Inr [] \<and>
      search_keys (out_events (searchAliExpress ?w' request)) = []"
    by blast
  show ?thesis
    by (intro conjI h1 h2 h3 f1 h5 h6 c1 f conjunct1 [OF later] conjunct2 [OF later])
qed

text \<open>
  Two answers the statement does not survive. A result list that is a string is not
  replaced by the empty list: \<open>slice\<close> yields a string, \<open>map\<close> is not defined on it, and the
  attempt fails. And when the cache file cannot be written, the empty list is returned
  but the same request goes to the search endpoint again.
\<close>

theorem empty_answer_counterexample:
  "out_result (searchAliExpress (shop\<lparr>RAPIDAPI_KEY := Some ''odd''\<rparr>) request) =
     Inl (Error (''Failed to search AliExpress with all 1 API key(s). Last error: '' @
                 ''data.result?.resultList?.slice(...).map is not a function'')) \<and>
   out_file (searchAliExpress (shop\<lparr>RAPIDAPI_KEY := Some ''odd''\<rparr>) request) = Missing \<and>
   out_result (searchAliExpress
     (shop\<lparr>RAPIDAPI_KEY := Some ''empty'', cache_writable := False\<rparr>) request) = Inr [] \<and>
   out_file (searchAliExpress
     (shop\<lparr>RAPIDAPI_KEY := Some ''empty'', cache_writable := False\<rparr>) request) = Missing \<and>
   search_keys (out_events (searchAliExpress
     (shop\<lparr>RAPIDAPI_KEY := Some ''empty'', cache_writable := False, cache_file := Missing\<rparr>)
     request)) = [JStr ''empty'']"
  by (simp add: pipeline_defs sample_defs key_loop.simps show_nat.simps)

section \<open>A missing search credential\<close>

text \<open>
  C8, evaluated where it fails. With a language-model credential but no search
  credential, a request that is not in the cache is first sent to the AI endpoint, and
  only then does the run fail for want of the search credential. No search request is
  sent.
\<close>

theorem missing_search_key_after_ai_call:
  "out_result (searchAliExpress (shop\<lparr>RAPIDAPI_KEY := None\<rparr>) request) =
     Inl (Error ''RapidAPI key is required. Set RAPIDAPI_KEY in .env file'') \<and>
   out_events (searchAliExpress (shop\<lparr>RAPIDAPI_KEY := None\<rparr>) request) =
     [CacheLookup ''nice red shoes for running|1|default'',
      AiCall ''hc'' (prompt (JStr ''nice red shoes for running''))]"
  by (simp add: pipeline_defs sample_defs)

end
